theory Spec2Isabelle
  imports Complex_Main "HOL-Library.Multiset" "HOL-Library.Sublist" "HOL-Library.AList"
begin

section \<open>Python values used by video2frame\<close>

text \<open>
  The exceptions the two source files can raise, as values. Every \<open>raise\<close>, failed
  \<open>assert\<close>, failed \<open>int(...)\<close> and out-of-range index of the source is a branch
  returning \<open>Inl\<close> of one of these.
\<close>

datatype error =
    AssertionError string
  | RuntimeError string
  | AttributeError string
  | ValueError
  | TypeError
  | IndexError
  | KeyError
  | FileExistsError
  | OSError

subsection \<open>Decimal text of integers\<close>

definition digit_char :: "nat \<Rightarrow> char" where
  "digit_char d = ''0123456789'' ! d"

definition digit_val :: "char \<Rightarrow> nat" where
  "digit_val c = of_char c - 48"

definition is_digit :: "char \<Rightarrow> bool" where
  "is_digit c = (48 \<le> (of_char c :: nat) \<and> (of_char c :: nat) \<le> 57)"

text \<open>\<open>str(n)\<close> for a natural number: its decimal digits, most significant first.\<close>

function dec :: "nat \<Rightarrow> string" where
  "dec n = (if n < 10 then [digit_char n] else dec (n div 10) @ [digit_char (n mod 10)])"
  by pat_completeness auto
termination
  by (relation "measure id") auto

declare dec.simps [simp del]

text \<open>\<open>"{:08d}".format(n)\<close> for \<open>n \<ge> 0\<close>: zero-padded on the left to at least 8 characters.\<close>

definition fmt08d :: "nat \<Rightarrow> string" where
  "fmt08d n = replicate (8 - length (dec n)) (CHR ''0'') @ dec n"

text \<open>\<open>str(n)\<close> and \<open>"{:08d}".format(n)\<close> for any Python integer; the sign counts in the width.\<close>

definition str_int :: "int \<Rightarrow> string" where
  "str_int n = (if n < 0 then CHR ''-'' # dec (nat (- n)) else dec (nat n))"

definition fmt08d_int :: "int \<Rightarrow> string" where
  "fmt08d_int n =
     (if n < 0 then CHR ''-'' # replicate (7 - length (dec (nat (- n)))) (CHR ''0'') @ dec (nat (- n))
      else fmt08d (nat n))"

text \<open>The value of a digit string, \<open>int(s)\<close> on digits only.\<close>

definition undec :: "string \<Rightarrow> nat" where
  "undec s = foldl (\<lambda>a c. 10 * a + digit_val c) 0 s"

subsection \<open>\<open>int(s)\<close> on text\<close>

text \<open>
  Python's \<open>int(s)\<close> for a \<open>str\<close>, base 10, on ASCII text: surrounding whitespace is
  stripped, one sign is allowed, and the digits may be grouped by single underscores.
  \<open>None\<close> stands for the \<open>ValueError\<close>.
\<close>

definition is_space :: "char \<Rightarrow> bool" where
  "is_space c = (c = CHR '' '' \<or> (9 \<le> (of_char c :: nat) \<and> (of_char c :: nat) \<le> 13)
                 \<or> (28 \<le> (of_char c :: nat) \<and> (of_char c :: nat) \<le> 31))"

definition strip :: "string \<Rightarrow> string" where
  "strip s = rev (dropWhile is_space (rev (dropWhile is_space s)))"

fun digit_groups :: "string \<Rightarrow> bool" where
  "digit_groups [] = False"
| "digit_groups [c] = is_digit c"
| "digit_groups (c # d # cs) =
     (is_digit c \<and> (if d = CHR ''_'' then digit_groups cs else digit_groups (d # cs)))"

definition py_int :: "string \<Rightarrow> int option" where
  "py_int s =
     (let t = strip s;
          neg = (t \<noteq> [] \<and> hd t = CHR ''-'');
          body = (if t \<noteq> [] \<and> (hd t = CHR ''-'' \<or> hd t = CHR ''+'') then tl t else t)
      in if digit_groups body
         then Some ((if neg then - 1 else 1) * int (undec (filter (\<lambda>c. c \<noteq> CHR ''_'') body)))
         else None)"

subsection \<open>List indexing and rounding\<close>

text \<open>\<open>xs[i]\<close>: a negative index counts from the end; out of range raises \<open>IndexError\<close>.\<close>

definition getitem :: "'a list \<Rightarrow> int \<Rightarrow> error + 'a" where
  "getitem xs i =
     (let j = (if i < 0 then i + int (length xs) else i)
      in if 0 \<le> j \<and> j < int (length xs) then Inr (xs ! nat j) else Inl IndexError)"

text \<open>\<open>[xs[i] for i in index]\<close>: the first failing lookup raises.\<close>

fun getitems :: "'a list \<Rightarrow> int list \<Rightarrow> error + 'a list" where
  "getitems xs [] = Inr []"
| "getitems xs (i # is) =
     (case getitem xs i of
        Inl e \<Rightarrow> Inl e
      | Inr x \<Rightarrow> (case getitems xs is of Inl e \<Rightarrow> Inl e | Inr ys \<Rightarrow> Inr (x # ys)))"

text \<open>
  \<open>round(x)\<close> on a float: to the nearest integer, ties to the even one. The float
  arithmetic of the source is carried out here on exact rationals.
\<close>

definition py_round :: "rat \<Rightarrow> int" where
  "py_round q =
     (let f = \<lfloor>q\<rfloor>; d = q - of_int f
      in if d < 1 / 2 then f
         else if 1 / 2 < d then f + 1
         else if even f then f else f + 1)"

text \<open>\<open>xs[::k]\<close> for \<open>k > 0\<close>: the first element, then every \<open>k\<close>-th after it.\<close>

fun slice_step :: "nat \<Rightarrow> 'a list \<Rightarrow> 'a list" where
  "slice_step k [] = []"
| "slice_step k (x # xs) = x # slice_step k (drop (k - 1) xs)"

section \<open>The frame sampler (\<open>sample_frames\<close>)\<close>

text \<open>
  A path is a \<open>pathlib\<close> path on a POSIX system: its anchor (\<open>''/''\<close>, \<open>''//''\<close> or
  empty) and its components. A frame is the pair \<open>(frame_id, frame_path)\<close> built by
  \<open>video_to_frames\<close>. The arguments are the fields of \<open>args\<close> that the program reads after parsing;
  \<open>sample\<close> is the text given to \<open>--sample\<close>, \<open>None\<close> when the option is absent.
\<close>

datatype path = PurePath (anchor: string) (parts: "string list")

type_synonym frame = "int \<times> path"

record args =
  tmp_dir :: string
  db_type :: string
  vf_setting :: "string list"
  sample_mode :: int
  sample :: "string option"
  threads :: int
  not_remove :: bool

text \<open>
  The positions picked by the uniform mode, lines 164 to 168: \<open>tot >> 1\<close> for \<open>n = 1\<close>,
  else \<open>round(x * step)\<close> for \<open>x\<close> in \<open>range(n)\<close> with \<open>step = (tot - 1.) / (n - 1)\<close>.
\<close>

definition uniform_index :: "nat \<Rightarrow> int \<Rightarrow> int list" where
  "uniform_index tot n =
     (if n = 1 then [int tot div 2]
      else let step = (of_nat tot - 1) / of_int (n - 1) :: rat
           in map (\<lambda>x. py_round (of_int x * step)) [0..n - 1])"

text \<open>
  \<open>sample_frames\<close>. The library's \<open>shuffle\<close> is a parameter: the list it leaves in
  place of \<open>frames\<close>.
\<close>

definition sample_frames ::
  "(frame list \<Rightarrow> frame list) \<Rightarrow> 'a args_scheme \<Rightarrow> frame list \<Rightarrow> error + frame list" where
  "sample_frames shuffle a frames =
     (if sample_mode a \<noteq> 0 then
        (case sample a of
           None \<Rightarrow> Inl TypeError
         | Some s \<Rightarrow>
            (case py_int s of
               None \<Rightarrow> Inl ValueError
             | Some n \<Rightarrow>
                if \<not> n > 0 then Inl (AssertionError (''N must >0, but get '' @ str_int n))
                else
                  let tot = length frames in
                  if sample_mode a = 1 then getitems frames (uniform_index tot n)
                  else if sample_mode a = 2 then
                    Inr (sort_key fst (take (min (nat n) tot) (shuffle frames)))
                  else if sample_mode a = 3 then Inr (slice_step (nat n) frames)
                  else Inl (AttributeError ''Sample mode is not supported'')))
      else Inr frames)"

section \<open>Paths and the file system\<close>

text \<open>\<open>s.split(c)\<close>: the pieces of \<open>s\<close> between occurrences of \<open>c\<close>; never empty.\<close>

fun split_on :: "char \<Rightarrow> string \<Rightarrow> string list" where
  "split_on c [] = [[]]"
| "split_on c (x # xs) =
     (if x = c then [] # split_on c xs
      else (case split_on c xs of [] \<Rightarrow> [[x]] | w # ws \<Rightarrow> (x # w) # ws))"

text \<open>
  \<open>Path(s)\<close>: exactly two leading slashes make the anchor \<open>//\<close>, any other number of
  leading slashes \<open>/\<close>; empty components and \<open>.\<close> are dropped, \<open>..\<close> is kept.
\<close>

definition Path :: "string \<Rightarrow> path" where
  "Path s =
     PurePath
       (let k = length (takeWhile (\<lambda>c. c = CHR ''/'') s)
        in if k = 0 then [] else if k = 2 then ''//'' else ''/'')
       (filter (\<lambda>c. c \<noteq> [] \<and> c \<noteq> ''.'') (split_on (CHR ''/'') s))"

text \<open>\<open>p.name\<close>: the last component, empty when there is none.\<close>

definition name :: "path \<Rightarrow> string" where
  "name p = (if parts p = [] then [] else last (parts p))"

text \<open>\<open>p / q\<close>: an anchored right operand replaces the left one.\<close>

definition joinpath :: "path \<Rightarrow> path \<Rightarrow> path" where
  "joinpath p q = (if anchor q \<noteq> [] then q else PurePath (anchor p) (parts p @ parts q))"

fun intercalate :: "string \<Rightarrow> string list \<Rightarrow> string" where
  "intercalate sep [] = []"
| "intercalate sep [x] = x"
| "intercalate sep (x # y # ys) = x @ sep @ intercalate sep (y # ys)"

definition str_path :: "path \<Rightarrow> string" where
  "str_path p =
     (if anchor p = [] \<and> parts p = [] then ''.'' else anchor p @ intercalate ''/'' (parts p))"

text \<open>
  The file system holds the regular files, each path with its content; a directory is
  there as the prefix of the files below it.
\<close>

type_synonym filesystem = "(path \<times> string) list"

definition below :: "path \<Rightarrow> path \<Rightarrow> bool" where
  "below d p = (anchor p = anchor d \<and> length (parts d) < length (parts p)
                 \<and> take (length (parts d)) (parts p) = parts d)"

text \<open>\<open>d.iterdir()\<close>: one child path per entry of \<open>d\<close>, in the order of the file system.\<close>

definition iterdir :: "path \<Rightarrow> filesystem \<Rightarrow> path list" where
  "iterdir d fs =
     remdups (map (\<lambda>p. PurePath (anchor d) (take (Suc (length (parts d))) (parts p)))
                  (filter (below d) (map fst fs)))"

text \<open>\<open>p.open("rb").read()\<close>: \<open>None\<close> when the file cannot be opened.\<close>

definition read_file :: "filesystem \<Rightarrow> path \<Rightarrow> string option" where
  "read_file fs p = map_of fs p"

text \<open>\<open>shutil.rmtree(d, ignore_errors=True)\<close>.\<close>

definition rmtree :: "path \<Rightarrow> filesystem \<Rightarrow> filesystem" where
  "rmtree d fs = filter (\<lambda>(p, s). \<not> below d p \<and> p \<noteq> d) fs"

section \<open>The transcoder and \<open>video_to_frames\<close>\<close>

text \<open>
  The environment holds what the program calls but does not define: \<open>ffmpeg\<close> maps the
  command line to the encoded images the transcoder produces for it, \<open>None\<close> when
  \<open>subprocess.call\<close> cannot start the program and raises; \<open>shuffle\<close> is the outcome of
  \<open>random.shuffle\<close>. The transcoder writes image \<open>k\<close> (from 1) to the output pattern
  \<open>%8d.jpg\<close> of the command, the counter zero-padded to 8 digits. Its exit status is
  not looked at.
\<close>

record env =
  ffmpeg :: "string list \<Rightarrow> string list option"
  shuffle :: "frame list \<Rightarrow> frame list"

definition frame_file :: "path \<Rightarrow> nat \<Rightarrow> path" where
  "frame_file d k = joinpath d (Path (fmt08d k @ ''.jpg''))"

fun ffmpeg_write :: "path \<Rightarrow> nat \<Rightarrow> string list \<Rightarrow> filesystem \<Rightarrow> filesystem" where
  "ffmpeg_write d k [] fs = fs"
| "ffmpeg_write d k (img # imgs) fs = ffmpeg_write d (Suc k) imgs (AList.update (frame_file d k) img fs)"

text \<open>
  \<open>[(int(f.name.split('.')[0]), f) for f in tmp_dir.iterdir()]\<close>: a name whose first piece
  is no integer raises \<open>ValueError\<close>.
\<close>

fun parse_frames :: "path list \<Rightarrow> error + frame list" where
  "parse_frames [] = Inr []"
| "parse_frames (f # fs) =
     (case py_int (hd (split_on (CHR ''.'') (name f))) of
        None \<Rightarrow> Inl ValueError
      | Some n \<Rightarrow> (case parse_frames fs of Inl e \<Rightarrow> Inl e | Inr r \<Rightarrow> Inr ((n, f) # r)))"

definition video_to_frames ::
  "env \<Rightarrow> 'a args_scheme \<Rightarrow> path \<Rightarrow> path \<Rightarrow> filesystem \<Rightarrow> (error + frame list) \<times> filesystem" where
  "video_to_frames e a video_file tmp fs =
     (let cmd = [''ffmpeg'', ''-loglevel'', ''panic'', ''-vsync'', ''vfr'', ''-i'', str_path video_file]
                @ vf_setting a
                @ [''-qscale:v'', ''2'', str_path (joinpath tmp (Path ''%8d.jpg''))]
      in (case ffmpeg e cmd of
            None \<Rightarrow> (Inl OSError, fs)
          | Some images \<Rightarrow>
             (let fs' = ffmpeg_write tmp 1 images fs
              in (case parse_frames (iterdir tmp fs') of
                    Inl err \<Rightarrow> (Inl err, fs')
                  | Inr frames \<Rightarrow> (Inr (sort_key fst frames), fs')))))"

section \<open>Storage\<close>

text \<open>
  The value handed to \<open>put\<close>: the raw bytes for LMDB, \<open>np.void\<close> of them otherwise.
  \<open>process\<close> uses its \<open>frame_db\<close> only through \<open>put\<close>, so the store is a type parameter
  and \<open>put\<close> a function on it; a \<open>put\<close> that raises leaves the store as it was.
\<close>

datatype blob = Bytes string | NpVoid string

type_synonym 'db put = "'db \<Rightarrow> string \<Rightarrow> blob \<Rightarrow> error + 'db"

text \<open>
  \<open>HDF5Storage.put\<close> is \<open>self.database[k] = v\<close>: h5py binds a new name and refuses a name
  that is already bound. The file is the list of its entries, oldest first.
\<close>

type_synonym h5file = "(string \<times> blob) list"

definition HDF5Storage_put :: "h5file put" where
  "HDF5Storage_put database k v =
     (case map_of database k of
        Some old \<Rightarrow> Inl (RuntimeError ''Unable to create link (name already exists)'')
      | None \<Rightarrow> Inr (database @ [(k, v)]))"


section \<open>The per-video operation (\<open>process\<close>)\<close>

record video_info =
  path :: string
  label :: string

record 'db world =
  fs :: filesystem
  db :: 'db

text \<open>The key of line 196: \<open>"{:08d}/{:08d}".format(video_ith, frame_ith)\<close>.\<close>

definition frame_key :: "nat \<Rightarrow> nat \<Rightarrow> string" where
  "frame_key video_ith frame_ith = fmt08d video_ith @ ''/'' @ fmt08d frame_ith"

text \<open>
  The loop of lines 195 to 198, \<open>frame_ith\<close> counting from the given start. The result is
  the exception that stopped the loop, if any, and the store with the writes made so far.
\<close>

fun write_frames ::
  "'db put \<Rightarrow> 'a args_scheme \<Rightarrow> filesystem \<Rightarrow> path \<Rightarrow> nat \<Rightarrow> nat \<Rightarrow> frame list \<Rightarrow> 'db
     \<Rightarrow> error option \<times> 'db" where
  "write_frames put a files tmp video_ith frame_ith [] d = (None, d)"
| "write_frames put a files tmp video_ith frame_ith ((frame_id, frame_path) # rest) d =
     (case read_file files (joinpath tmp frame_path) of
        None \<Rightarrow> (Some OSError, d)
      | Some s \<Rightarrow>
         (case put d (frame_key video_ith frame_ith)
                  (if db_type a = ''LMDB'' then Bytes s else NpVoid s) of
            Inl err \<Rightarrow> (Some err, d)
          | Inr d' \<Rightarrow> write_frames put a files tmp video_ith (Suc frame_ith) rest d'))"

text \<open>
  Successive calls of \<open>put\<close>, stopping at the first that raises: the writes of one video
  as a sequence.
\<close>

fun put_all :: "'db put \<Rightarrow> (string \<times> blob) list \<Rightarrow> 'db \<Rightarrow> error + 'db" where
  "put_all put [] d = Inr d"
| "put_all put ((k, v) # kvs) d =
     (case put d k v of Inl err \<Rightarrow> Inl err | Inr d' \<Rightarrow> put_all put kvs d')"

text \<open>The working directory of a video, lines 182 and 183.\<close>

definition tmp_dir_of :: "'a args_scheme \<Rightarrow> string \<Rightarrow> path" where
  "tmp_dir_of a video_path = joinpath (Path (tmp_dir a)) (Path (name (Path video_path)))"

text \<open>
  \<open>process\<close>. \<open>mkdir(exist_ok=True)\<close> raises when a regular file has the directory's
  path. The result is \<open>Inr ''OK''\<close> or the exception that leaves the function.
\<close>

definition process ::
  "env \<Rightarrow> 'a args_scheme \<Rightarrow> 'db put \<Rightarrow> nat \<Rightarrow> 'b video_info_scheme \<Rightarrow> 'db world
     \<Rightarrow> (error + string) \<times> 'db world" where
  "process e a put video_ith info w =
     (let video_file = Path (path info);
          tmp = tmp_dir_of a (path info)
      in if map_of (fs w) tmp \<noteq> None then (Inl FileExistsError, w)
         else
           (case video_to_frames e a video_file tmp (fs w) of
              (Inl err, fs1) \<Rightarrow> (Inl err, w\<lparr>fs := fs1\<rparr>)
            | (Inr frames, fs1) \<Rightarrow>
               if frames = [] then (Inl (RuntimeError ''Extract frame failed''), w\<lparr>fs := fs1\<rparr>)
               else
                 (case sample_frames (shuffle e) a frames of
                    Inl err \<Rightarrow> (Inl err, w\<lparr>fs := fs1\<rparr>)
                  | Inr files \<Rightarrow>
                     if files = [] then (Inl (RuntimeError ''No frames in video''), w\<lparr>fs := fs1\<rparr>)
                     else
                       (case write_frames put a fs1 tmp video_ith 0 files (db w) of
                          (Some err, d) \<Rightarrow>
                            (Inl (RuntimeError ''Video exists in database''), w\<lparr>fs := fs1, db := d\<rparr>)
                        | (None, d) \<Rightarrow>
                            (Inr ''OK'',
                             w\<lparr>fs := (if not_remove a then fs1 else rmtree tmp fs1), db := d\<rparr>)))))"

text \<open>
  The state in which \<open>process\<close> enters the loop of the Writing step, if it gets there
  (lines 182 to 192 passed without an exception): the file system left by the transcoder
  and the sampled frames.
\<close>

definition writing_input ::
  "env \<Rightarrow> 'a args_scheme \<Rightarrow> 'b video_info_scheme \<Rightarrow> filesystem
     \<Rightarrow> (filesystem \<times> frame list) option" where
  "writing_input e a info files =
     (if map_of files (tmp_dir_of a (path info)) \<noteq> None then None
      else
        (case video_to_frames e a (Path (path info)) (tmp_dir_of a (path info)) files of
           (Inl err, fs1) \<Rightarrow> None
         | (Inr frames, fs1) \<Rightarrow>
            if frames = [] then None
            else (case sample_frames (shuffle e) a frames of
                    Inl err \<Rightarrow> None
                  | Inr sampled \<Rightarrow> if sampled = [] then None else Some (fs1, sampled))))"

section \<open>The driver (the main block, lines 216 to 238)\<close>






section \<open>The read path (\<open>VideoDataset.__getitem__\<close>)\<close>

text \<open>
  A Python number is an \<open>int\<close> or a \<open>float\<close>; \<open>a / b\<close> on two integers is a float
  whatever its value (the program runs on Python 3, which its \<open>super()\<close> without
  arguments and its starred assignments require). The format code \<open>d\<close> takes an
  \<open>int\<close> and raises \<open>ValueError\<close> on a \<open>float\<close>.
\<close>

datatype number = PyInt int | PyFloat rat

definition format_08d :: "number \<Rightarrow> error + string" where
  "format_08d x = (case x of PyInt n \<Rightarrow> Inr (fmt08d_int n) | PyFloat q \<Rightarrow> Inl ValueError)"

text \<open>
  The stored file: a group per video, named by the video's number, holding one entry
  per frame. \<open>imread\<close>, the decoder of the image library, is a parameter.
\<close>

type_synonym h5group = "(string \<times> string) list"

record 'c dataset =
  num_frames_per_clip :: int
  crop_size :: int
  annotation :: "'c list"
  database :: "(string \<times> h5group) list"

text \<open>Lines 30 to 37: the frame numbers to read from a clip of \<open>len\<close> frames.\<close>

definition frame_index :: "int \<Rightarrow> nat \<Rightarrow> number list" where
  "frame_index clip len =
     (if clip \<noteq> 0 then
        (if clip = 1 then [PyFloat (of_nat len / 2)]
         else let skips = (of_nat len - 1) * 1 / of_int (clip - 1) :: rat
              in map (\<lambda>x. PyInt (py_round (of_int x * skips))) [0..clip - 1])
      else map PyInt [0..int len - 1])"

text \<open>Lines 40 to 48: format each number as a key, look the entry up, decode it.\<close>

fun decode_frames ::
  "(string \<Rightarrow> error + 'img) \<Rightarrow> h5group \<Rightarrow> number list \<Rightarrow> error + 'img list" where
  "decode_frames imread frames_binary [] = Inr []"
| "decode_frames imread frames_binary (idx # rest) =
     (case format_08d idx of
        Inl e \<Rightarrow> Inl e
      | Inr k \<Rightarrow>
         (case map_of frames_binary k of
            None \<Rightarrow> Inl KeyError
          | Some bytes \<Rightarrow>
             (case imread bytes of
                Inl e \<Rightarrow> Inl e
              | Inr img \<Rightarrow>
                 (case decode_frames imread frames_binary rest of
                    Inl e \<Rightarrow> Inl e
                  | Inr imgs \<Rightarrow> Inr (img # imgs)))))"

text \<open>
  \<open>__getitem__\<close> up to line 49: the annotation, the clip's group, the frame numbers and
  the decoded frames. The crop of lines 52 to 57 works on this result and is not part
  of the model.
\<close>

definition getitem_video ::
  "(string \<Rightarrow> error + 'img) \<Rightarrow> ('c, 'a) dataset_scheme \<Rightarrow> int \<Rightarrow> error + ('img list \<times> 'c)" where
  "getitem_video imread ds index =
     (case getitem (annotation ds) index of
        Inl e \<Rightarrow> Inl e
      | Inr ann \<Rightarrow>
         (case map_of (database ds) (fmt08d_int index) of
            None \<Rightarrow> Inl KeyError
          | Some frames_binary \<Rightarrow>
             (case decode_frames imread frames_binary
                     (frame_index (num_frames_per_clip ds) (length frames_binary)) of
                Inl e \<Rightarrow> Inl e
              | Inr video_data \<Rightarrow> Inr (video_data, ann))))"


section \<open>Example inputs\<close>

text \<open>
  A run with the default options on \<open>/tmp\<close>, a transcoder that produces ten images for
  every video, and the ten frames it leaves for \<open>videos/a.mp4\<close>.
\<close>

definition ex_args :: args where
  "ex_args = \<lparr>tmp_dir = ''/tmp'', db_type = ''HDF5'', vf_setting = [], sample_mode = 1,
               sample = Some ''1'', threads = 0, not_remove = False\<rparr>"

definition ex_frames :: "frame list" where
  "ex_frames = map (\<lambda>k. (int k, frame_file (Path ''/tmp/a.mp4'') k)) [1..<11]"

text \<open>
  The transcoder of the examples produces ten images for every video except
  \<open>videos/broken.mp4\<close>, for which it produces none; the shuffle reverses the list.
\<close>

definition ex_env :: env where
  "ex_env = \<lparr>ffmpeg = (\<lambda>cmd. if ''videos/broken.mp4'' \<in> set cmd then Some []
                             else Some (map (\<lambda>k. ''jpeg'' @ dec k) [1..<11])),
             shuffle = rev\<rparr>"

definition ex_video :: "string \<Rightarrow> video_info" where
  "ex_video p = \<lparr>path = p, label = ''walking''\<rparr>"




definition ex_world :: "h5file world" where
  "ex_world = \<lparr>fs = [], db = []\<rparr>"

text \<open>A stored file with one clip of two frames.\<close>

definition ex_dataset :: "string dataset" where
  "ex_dataset = \<lparr>num_frames_per_clip = 1, crop_size = 0, annotation = [''walking''],
                  database = [(''00000000'', [(''00000000'', ''jpeg0''), (''00000001'', ''jpeg1'')])]\<rparr>"

section \<open>Properties of the sampler\<close>

lemma getitems_map:
  "\<forall>i\<in>set is. 0 \<le> i \<and> i < int (length xs) \<Longrightarrow> getitems xs is = Inr (map (\<lambda>i. xs ! nat i) is)"
  by (induction "is") (auto simp: getitem_def)

lemma py_round_of_int: "py_round (of_int x) = x"
  by (simp add: py_round_def)

lemma uniform_index_full: "2 \<le> N \<Longrightarrow> uniform_index N (int N) = [0..int N - 1]"
  by (simp add: uniform_index_def py_round_of_int of_nat_diff)

lemma map_nth_upto: "map (\<lambda>i. xs ! nat i) [0..int (length xs) - 1] = xs"
  by (rule nth_equalityI) auto

text \<open>
  C1. In the uniform mode with \<open>n = 1\<close>, a non-empty frame list of length \<open>N\<close> is sampled to
  exactly one frame, the one at position \<open>N div 2\<close> of the list.
\<close>

theorem uniform_one_middle:
  assumes "sample_mode a = 1" and "sample a = Some s" and "py_int s = Some 1"
      and "frames \<noteq> []"
  shows "sample_frames sh a frames = Inr [frames ! (length frames div 2)]"
proof -
  have "int (length frames) div 2 < int (length frames)"
    using assms(4) by (cases frames) auto
  then have "getitems frames [int (length frames) div 2]
             = Inr (map (\<lambda>i. frames ! nat i) [int (length frames) div 2])"
    by (intro getitems_map) simp
  moreover have "nat (int (length frames) div 2) = length frames div 2"
    by (simp add: nat_div_distrib)
  ultimately have "getitems frames [int (length frames) div 2] = Inr [frames ! (length frames div 2)]"
    by simp
  then show ?thesis using assms(1-3) by (simp add: sample_frames_def uniform_index_def)
qed

theorem uniform_one_middle_witness:
  "sample_mode ex_args = 1 \<and> sample ex_args = Some ''1'' \<and> py_int ''1'' = Some 1
   \<and> ex_frames \<noteq> []
   \<and> sample_frames rev ex_args ex_frames = Inr [(6, frame_file (Path ''/tmp/a.mp4'') 6)]"
proof -
  have h1: "sample_mode ex_args = 1" and h2: "sample ex_args = Some ''1''"
    by (simp_all add: ex_args_def)
  have h3: "py_int ''1'' = Some 1" by code_simp
  have h4: "ex_frames \<noteq> []" by code_simp
  have v: "ex_frames ! (length ex_frames div 2) = (6, frame_file (Path ''/tmp/a.mp4'') 6)"
    by code_simp
  show ?thesis using uniform_one_middle [OF h1 h2 h3 h4, of rev] h1 h2 h3 h4 v by simp
qed

text \<open>
  C4. In the uniform mode with \<open>n = N\<close> on a frame list of length \<open>N \<ge> 2\<close>, the step
  \<open>(N - 1) / (N - 1)\<close> is 1 (a quotient that is exact in floating point as well), the
  selected positions \<open>round(i * step)\<close> are \<open>0, 1, ..., N - 1\<close>, each once, and the sampler
  returns all \<open>N\<close> frames in their original order.
\<close>

theorem uniform_all:
  assumes "sample_mode a = 1" and "sample a = Some s"
      and "py_int s = Some (int (length frames))" and "2 \<le> length frames"
  shows "uniform_index (length frames) (int (length frames)) = [0..int (length frames) - 1]
         \<and> distinct (uniform_index (length frames) (int (length frames)))
         \<and> sample_frames sh a frames = Inr frames"
proof -
  let ?N = "length frames"
  have ix: "uniform_index ?N (int ?N) = [0..int ?N - 1]"
    using assms(4) by (rule uniform_index_full)
  have "getitems frames [0..int ?N - 1] = Inr (map (\<lambda>i. frames ! nat i) [0..int ?N - 1])"
    by (rule getitems_map) auto
  then have "getitems frames (uniform_index ?N (int ?N)) = Inr frames"
    using ix by (simp add: map_nth_upto)
  moreover have "frames \<noteq> []" using assms(4) by auto
  ultimately have "sample_frames sh a frames = Inr frames"
    using assms(1-3) by (simp add: sample_frames_def)
  then show ?thesis using ix by simp
qed

theorem uniform_all_witness:
  "sample_mode (ex_args\<lparr>sample := Some ''10''\<rparr>) = 1
   \<and> py_int ''10'' = Some (int (length ex_frames)) \<and> 2 \<le> length ex_frames
   \<and> uniform_index 10 10 = [0, 1, 2, 3, 4, 5, 6, 7, 8, 9]
   \<and> sample_frames rev (ex_args\<lparr>sample := Some ''10''\<rparr>) ex_frames = Inr ex_frames"
proof -
  have h1: "sample_mode (ex_args\<lparr>sample := Some ''10''\<rparr>) = 1"
    and h2: "sample (ex_args\<lparr>sample := Some ''10''\<rparr>) = Some ''10''"
    by (simp_all add: ex_args_def)
  have len: "length ex_frames = 10" by (simp add: ex_frames_def)
  have h3: "py_int ''10'' = Some (int (length ex_frames))" unfolding len by code_simp
  have h4: "2 \<le> length ex_frames" by (simp add: len)
  have u: "[0..int (length ex_frames) - 1] = [0, 1, 2, 3, 4, 5, 6, 7, 8, 9]"
    unfolding len by code_simp
  show ?thesis
    using uniform_all [OF h1 h2 h3 h4, of rev] h1 h3 h4 u by (simp add: len)
qed


lemma slice_step_eq:
  "0 < k \<Longrightarrow> slice_step k xs = map (\<lambda>i. xs ! (i * k)) [0..<(length xs + k - 1) div k]"
proof (induction k xs rule: slice_step.induct)
  case (1 k)
  then show ?case by simp
next
  case (2 k x xs)
  let ?L = "length xs"
  have len: "(?L - (k - 1) + k - 1) div k = ?L div k"
  proof (cases "k - 1 \<le> ?L")
    case True
    then show ?thesis using 2(2) by simp
  next
    case False
    then show ?thesis using 2(2) by simp
  qed
  have len2: "(Suc ?L + k - 1) div k = Suc (?L div k)"
    using 2(2) by simp
  have ih: "slice_step k (drop (k - 1) xs) = map (\<lambda>i. drop (k - 1) xs ! (i * k)) [0..<?L div k]"
    using 2 len by simp
  have el: "drop (k - 1) xs ! (i * k) = (x # xs) ! (Suc i * k)" if "i < ?L div k" for i
  proof -
    have "k \<le> ?L" using that 2(2) by (metis div_less leI less_nat_zero_code)
    then have "drop (k - 1) xs ! (i * k) = xs ! (k - 1 + i * k)" by simp
    moreover have "Suc i * k = Suc (k - 1 + i * k)" using 2(2) by simp
    ultimately show ?thesis by simp
  qed
  have "map (\<lambda>i. (x # xs) ! (i * k)) [0..<Suc (?L div k)]
        = x # map (\<lambda>i. (x # xs) ! (Suc i * k)) [0..<?L div k]"
    by (simp add: map_upt_Suc del: upt_Suc)
  also have "\<dots> = x # map (\<lambda>i. drop (k - 1) xs ! (i * k)) [0..<?L div k]"
    using el by simp
  finally show ?case using ih len2 by simp
qed

lemma ceiling_div_nat:
  assumes "0 < k"
  shows "nat \<lceil>real N / real k\<rceil> = (N + k - 1) div k"
proof -
  let ?q = "(N + k - 1) div k"
  have up: "N \<le> ?q * k"
  proof -
    have "N + k - 1 = ?q * k + (N + k - 1) mod k" by simp
    moreover have "(N + k - 1) mod k \<le> k - 1"
      using assms by (simp add: Suc_leI less_Suc_eq_le Suc_pred' mod_less_divisor flip: less_Suc_eq_le)
    ultimately show ?thesis using assms by linarith
  qed
  have lo: "?q * k < N + k"
  proof -
    have "?q * k \<le> N + k - 1" by (simp add: div_times_less_eq_dividend)
    then show ?thesis using assms by linarith
  qed
  have "real N / real k \<le> real ?q"
    using up assms by (simp add: pos_divide_le_eq flip: of_nat_mult)
  moreover have "real ?q - 1 < real N / real k"
  proof -
    have "real (?q * k) < real (N + k)" using lo by (simp only: of_nat_less_iff)
    then have "(real ?q - 1) * real k < real N" by (simp add: algebra_simps)
    then show ?thesis using assms by (simp add: pos_less_divide_eq)
  qed
  ultimately have "\<lceil>real N / real k\<rceil> = int ?q"
    by (intro ceiling_unique) simp_all
  then show ?thesis by simp
qed

text \<open>
  C2. In the modulus mode with stride \<open>k > 0\<close>, a frame list of length \<open>N\<close> is sampled to
  the frames at positions \<open>0, k, 2k, ...\<close>, in that order; there are \<open>ceil(N / k)\<close> of them.
  For ten frames and \<open>k = 3\<close> these are the frames at positions 0, 3, 6 and 9.
\<close>

theorem modulus_every_kth:
  assumes "sample_mode a = 3" and "sample a = Some s" and "py_int s = Some (int k)" and "0 < k"
  shows "sample_frames sh a frames
           = Inr (map (\<lambda>i. frames ! (i * k)) [0..<nat \<lceil>real (length frames) / real k\<rceil>])
         \<and> (length frames = 10 \<and> k = 3 \<longrightarrow>
               sample_frames sh a frames = Inr [frames ! 0, frames ! 3, frames ! 6, frames ! 9])"
proof -
  have r: "sample_frames sh a frames = Inr (slice_step k frames)"
    using assms by (simp add: sample_frames_def)
  have g: "slice_step k frames
           = map (\<lambda>i. frames ! (i * k)) [0..<nat \<lceil>real (length frames) / real k\<rceil>]"
    using assms(4) by (simp add: slice_step_eq ceiling_div_nat)
  have "slice_step 3 frames = [frames ! 0, frames ! 3, frames ! 6, frames ! 9]"
    if "length frames = 10"
    using that by (simp add: slice_step_eq upt_conv_Cons)
  then show ?thesis using r g by auto
qed

theorem modulus_every_kth_witness:
  "sample_mode (ex_args\<lparr>sample_mode := 3, sample := Some ''3''\<rparr>) = 3
   \<and> py_int ''3'' = Some (int 3) \<and> (0::nat) < 3 \<and> length ex_frames = 10
   \<and> sample_frames rev (ex_args\<lparr>sample_mode := 3, sample := Some ''3''\<rparr>) ex_frames
       = Inr [ex_frames ! 0, ex_frames ! 3, ex_frames ! 6, ex_frames ! 9]"
proof -
  have h1: "sample_mode (ex_args\<lparr>sample_mode := 3, sample := Some ''3''\<rparr>) = 3"
    and h2: "sample (ex_args\<lparr>sample_mode := 3, sample := Some ''3''\<rparr>) = Some ''3''"
    by (simp_all add: ex_args_def)
  have h3: "py_int ''3'' = Some (int 3)" by code_simp
  have h4: "(0::nat) < 3" by simp
  have len: "length ex_frames = 10" by (simp add: ex_frames_def)
  have "sample_frames rev (ex_args\<lparr>sample_mode := 3, sample := Some ''3''\<rparr>) ex_frames
          = Inr [ex_frames ! 0, ex_frames ! 3, ex_frames ! 6, ex_frames ! 9]"
    using modulus_every_kth [OF h1 h2 h3 h4, of rev ex_frames] len by blast
  then show ?thesis using h1 h3 len by simp
qed









section \<open>Working directories\<close>

lemma split_on_nonempty: "split_on c s \<noteq> []"
  by (induction s) (auto split: list.splits)

lemma split_on_pieces: "w \<in> set (split_on c s) \<Longrightarrow> c \<notin> set w"
  by (induction s arbitrary: w) (auto split: list.splits if_splits)

lemma split_on_absent: "c \<notin> set s \<Longrightarrow> split_on c s = [s]"
  by (induction s) auto

lemma name_Path_plain:
  "CHR ''/'' \<notin> set (name (Path p)) \<and> name (Path p) \<noteq> ''.''"
proof (cases "parts (Path p) = []")
  case True
  then show ?thesis by (simp add: name_def)
next
  case False
  then have "last (parts (Path p)) \<in> set (parts (Path p))" by simp
  then have "last (parts (Path p)) \<in> set (split_on (CHR ''/'') p) \<and> last (parts (Path p)) \<noteq> ''.''"
    by (simp add: Path_def)
  then show ?thesis using False by (auto simp: name_def dest: split_on_pieces)
qed

lemma Path_component:
  assumes "CHR ''/'' \<notin> set n" and "n \<noteq> ''.''"
  shows "Path n = PurePath [] (if n = [] then [] else [n])"
proof -
  have "takeWhile (\<lambda>c. c = CHR ''/'') n = []"
    using assms(1) by (cases n) auto
  then show ?thesis using assms by (simp add: Path_def split_on_absent)
qed

lemma tmp_dir_of_eq:
  "tmp_dir_of a p =
     PurePath (anchor (Path (tmp_dir a)))
              (parts (Path (tmp_dir a)) @ (if name (Path p) = [] then [] else [name (Path p)]))"
  using name_Path_plain [of p] by (simp add: tmp_dir_of_def joinpath_def Path_component)

text \<open>
  C9, as the code has it. The working directory of a video is the transient directory
  joined with the last component of the video's path, so two videos get different
  working directories exactly when the file names of their paths differ.
\<close>

theorem tmp_dir_by_name:
  "tmp_dir_of a p = tmp_dir_of a q \<longleftrightarrow> name (Path p) = name (Path q)"
  by (auto simp: tmp_dir_of_eq split: if_splits)

theorem tmp_dir_by_name_witness:
  "name (Path ''videos/a.mp4'') \<noteq> name (Path ''videos/b.mp4'')
   \<and> tmp_dir_of ex_args ''videos/a.mp4'' \<noteq> tmp_dir_of ex_args ''videos/b.mp4''"
proof -
  have "name (Path ''videos/a.mp4'') \<noteq> name (Path ''videos/b.mp4'')" by code_simp
  then show ?thesis using tmp_dir_by_name [of ex_args "''videos/a.mp4''" "''videos/b.mp4''"] by simp
qed

text \<open>
  Two different source paths with the same file name are given the same working
  directory: the naming is not injective over source paths.
\<close>

theorem tmp_dir_shared_counterexample:
  "''a/v.mp4'' \<noteq> ''b/v.mp4'' \<and> tmp_dir_of ex_args ''a/v.mp4'' = tmp_dir_of ex_args ''b/v.mp4''"
  by code_simp

section \<open>The read path\<close>

lemma decode_float: "decode_frames imread g (PyFloat q # rest) = Inl ValueError"
  by (simp add: format_08d_def)

text \<open>
  C10. With \<open>num_frames_per_clip = 1\<close> the lookup of any clip fails: the single frame number
  is \<open>len(frames_binary) / 2\<close>, a float, and formatting it with \<open>{:08d}\<close> raises
  \<open>ValueError\<close> before any frame is read. (An index without annotation or without stored
  clip fails earlier, with \<open>IndexError\<close> or \<open>KeyError\<close>.)
\<close>

theorem single_frame_lookup_fails:
  assumes "num_frames_per_clip ds = 1"
  shows "(\<exists>e. getitem_video imread ds index = Inl e)
         \<and> (\<forall>ann g. getitem (annotation ds) index = Inr ann
                     \<and> map_of (database ds) (fmt08d_int index) = Some g
               \<longrightarrow> frame_index 1 (length g) = [PyFloat (of_nat (length g) / 2)]
                   \<and> format_08d (PyFloat (of_nat (length g) / 2)) = Inl ValueError
                   \<and> getitem_video imread ds index = Inl ValueError)"
  using assms
  by (auto simp: getitem_video_def frame_index_def format_08d_def split: sum.splits option.splits)

theorem single_frame_lookup_fails_witness:
  "num_frames_per_clip ex_dataset = 1
   \<and> getitem (annotation ex_dataset) 0 = Inr ''walking''
   \<and> map_of (database ex_dataset) (fmt08d_int 0)
       = Some [(''00000000'', ''jpeg0''), (''00000001'', ''jpeg1'')]
   \<and> getitem_video Inr ex_dataset 0 = Inl ValueError"
proof -
  have h1: "num_frames_per_clip ex_dataset = 1" by (simp add: ex_dataset_def)
  have h2: "getitem (annotation ex_dataset) 0 = Inr ''walking''" by code_simp
  have h3: "map_of (database ex_dataset) (fmt08d_int 0)
              = Some [(''00000000'', ''jpeg0''), (''00000001'', ''jpeg1'')]" by code_simp
  have "getitem_video Inr ex_dataset 0 = Inl ValueError"
    using single_frame_lookup_fails [OF h1, of Inr 0] h2 h3 by blast
  then show ?thesis using h1 h2 h3 by simp
qed


section \<open>Keys\<close>

lemma digit_val_char: "d < 10 \<Longrightarrow> digit_val (digit_char d) = d"
proof -
  assume "d < 10"
  then have "d \<in> {0, 1, 2, 3, 4, 5, 6, 7, 8, 9}" by auto
  then show ?thesis by (auto simp: digit_val_def digit_char_def)
qed

lemma is_digit_char: "d < 10 \<Longrightarrow> is_digit (digit_char d)"
proof -
  assume "d < 10"
  then have "d \<in> {0, 1, 2, 3, 4, 5, 6, 7, 8, 9}" by auto
  then show ?thesis by (auto simp: is_digit_def digit_char_def)
qed

lemma dec_digits: "c \<in> set (dec n) \<Longrightarrow> is_digit c"
proof (induction n arbitrary: c rule: dec.induct)
  case (1 n)
  show ?case
  proof (cases "n < 10")
    case True
    then show ?thesis using 1(2) by (simp add: dec.simps [of n] is_digit_char)
  next
    case False
    then show ?thesis using 1 by (auto simp: dec.simps [of n] is_digit_char)
  qed
qed

lemma undec_snoc: "undec (s @ [c]) = 10 * undec s + digit_val c"
  by (simp add: undec_def)

lemma undec_dec: "undec (dec n) = n"
proof (induction n rule: dec.induct)
  case (1 n)
  show ?case
  proof (cases "n < 10")
    case True
    then show ?thesis by (simp add: dec.simps [of n] undec_def digit_val_char)
  next
    case False
    then have "undec (dec n) = 10 * undec (dec (n div 10)) + digit_val (digit_char (n mod 10))"
      by (simp add: dec.simps [of n] undec_snoc)
    then show ?thesis using 1 False by (simp add: digit_val_char)
  qed
qed

lemma undec_zeros: "undec (replicate k (CHR ''0'') @ s) = undec s"
  by (induction k) (simp_all add: undec_def digit_val_def)

lemma undec_fmt08d: "undec (fmt08d n) = n"
  by (simp add: fmt08d_def undec_zeros undec_dec)

lemma fmt08d_inj: "fmt08d m = fmt08d n \<Longrightarrow> m = n"
  by (metis undec_fmt08d)

lemma fmt08d_no_slash: "CHR ''/'' \<notin> set (fmt08d n)"
proof
  assume "CHR ''/'' \<in> set (fmt08d n)"
  then have "CHR ''/'' = CHR ''0'' \<or> is_digit (CHR ''/'')"
    by (auto simp: fmt08d_def dest: dec_digits)
  then show False by (simp add: is_digit_def)
qed

lemma frame_key_inj:
  assumes "frame_key i p = frame_key j q"
  shows "i = j \<and> p = q"
proof -
  have ns: "\<forall>c\<in>set (fmt08d v). c \<noteq> CHR ''/''" for v
    using fmt08d_no_slash [of v] by auto
  have tw: "takeWhile (\<lambda>c. c \<noteq> CHR ''/'') (frame_key v f) = fmt08d v" for v f
    using ns [of v] by (simp add: frame_key_def takeWhile_append2)
  have dw: "dropWhile (\<lambda>c. c \<noteq> CHR ''/'') (frame_key v f) = CHR ''/'' # fmt08d f" for v f
    using ns [of v] by (simp add: frame_key_def dropWhile_append2)
  from assms tw have "fmt08d i = fmt08d j" by metis
  moreover from assms dw have "fmt08d p = fmt08d q" by (metis list.inject)
  ultimately show ?thesis by (simp add: fmt08d_inj)
qed


section \<open>The per-video operation\<close>

lemma getitems_error: "getitems xs is = Inl err \<Longrightarrow> err = IndexError"
  by (induction "is" arbitrary: err) (auto simp: getitem_def Let_def split: sum.splits if_splits)

lemma sample_frames_error: "sample_frames sh a frames = Inl err \<Longrightarrow> err \<noteq> RuntimeError m"
  by (auto simp: sample_frames_def Let_def split: if_splits option.splits dest: getitems_error)

lemma parse_frames_error: "parse_frames ps = Inl err \<Longrightarrow> err = ValueError"
  by (induction ps arbitrary: err) (auto split: option.splits sum.splits)

lemma video_to_frames_error:
  "video_to_frames e a v t files = (Inl err, fs1) \<Longrightarrow> err = ValueError \<or> err = OSError"
  by (auto simp: video_to_frames_def Let_def split: sum.splits option.splits
           dest: parse_frames_error)

lemma process_not_writing:
  assumes "writing_input e a info (fs w) = None"
  shows "\<exists>err w'. process e a put i info w = (Inl err, w') \<and> db w' = db w
           \<and> err \<noteq> RuntimeError ''Video exists in database''"
  using assms
  by (auto simp: writing_input_def process_def Let_def
           split: if_splits prod.splits sum.splits
           dest: video_to_frames_error sample_frames_error)

lemma process_writing:
  assumes "writing_input e a info (fs w) = Some (fs1, sampled)"
  shows "process e a put i info w =
           (case write_frames put a fs1 (tmp_dir_of a (path info)) i 0 sampled (db w) of
              (Some err, d) \<Rightarrow>
                (Inl (RuntimeError ''Video exists in database''), w\<lparr>fs := fs1, db := d\<rparr>)
            | (None, d) \<Rightarrow>
                (Inr ''OK'', w\<lparr>fs := (if not_remove a then fs1
                                        else rmtree (tmp_dir_of a (path info)) fs1), db := d\<rparr>))"
  using assms
  by (auto simp: writing_input_def process_def Let_def
           split: if_splits prod.splits sum.splits option.splits)

lemma write_frames_puts:
  "write_frames put a files t i k sampled d = (None, d') \<Longrightarrow>
     \<exists>vals. length vals = length sampled
       \<and> put_all put (zip (map (frame_key i) [k..<k + length sampled]) vals) d = Inr d'"
proof (induction sampled arbitrary: k d)
  case Nil
  then show ?case by simp
next
  case (Cons fr rest)
  obtain fid fp where fr: "fr = (fid, fp)" by (cases fr)
  from Cons.prems fr obtain s d1 where
    rd: "read_file files (joinpath t fp) = Some s" and
    pt: "put d (frame_key i k) (if db_type a = ''LMDB'' then Bytes s else NpVoid s) = Inr d1" and
    rest: "write_frames put a files t i (Suc k) rest d1 = (None, d')"
    by (auto split: option.splits sum.splits)
  from Cons.IH [OF rest] obtain vals where
    v: "length vals = length rest"
       "put_all put (zip (map (frame_key i) [Suc k..<Suc k + length rest]) vals) d1 = Inr d'"
    by blast
  let ?v = "if db_type a = ''LMDB'' then Bytes s else NpVoid s"
  have "[k..<k + length (fr # rest)] = k # [Suc k..<Suc k + length rest]"
    by (subst upt_rec) simp
  then have "put_all put (zip (map (frame_key i) [k..<k + length (fr # rest)]) (?v # vals)) d = Inr d'"
    using pt v(2) by simp
  moreover have "length (?v # vals) = length (fr # rest)" using v(1) by simp
  ultimately show ?case by blast
qed

lemma frame_keys_distinct: "distinct (map (frame_key i) [0..<n])"
  by (auto simp: distinct_map inj_on_def dest: frame_key_inj)

text \<open>
  C8. When \<open>process\<close> returns \<open>OK\<close> for the video with index \<open>video_ith\<close>, it has reached the
  Writing step with a non-empty list of \<open>n\<close> sampled frames and the store is the result of
  \<open>n\<close> successful calls of \<open>put\<close>, in this order, on the keys
  \<open>"{video_ith:08d}/{p:08d}"\<close> for \<open>p = 0, 1, ..., n - 1\<close>: the positions start at 0 and
  increase by one, and the \<open>n\<close> keys are pairwise different.
\<close>

theorem written_keys:
  assumes "process e a put i info w = (Inr status, w')"
  shows "\<exists>fs1 sampled vals.
           writing_input e a info (fs w) = Some (fs1, sampled)
           \<and> sampled \<noteq> [] \<and> length vals = length sampled
           \<and> put_all put (zip (map (frame_key i) [0..<length sampled]) vals) (db w) = Inr (db w')
           \<and> distinct (map (frame_key i) [0..<length sampled])
           \<and> set (map (frame_key i) [0..<length sampled])
               = {fmt08d i @ ''/'' @ fmt08d p | p. p < length sampled}"
proof (cases "writing_input e a info (fs w)")
  case None
  then show ?thesis using process_not_writing [OF None, of put i] assms by auto
next
  case (Some r)
  obtain fs1 sampled where r: "r = (fs1, sampled)" by (cases r)
  have wi: "writing_input e a info (fs w) = Some (fs1, sampled)" using Some r by simp
  have ne: "sampled \<noteq> []"
    using wi by (auto simp: writing_input_def split: if_splits prod.splits sum.splits)
  obtain d where wf: "write_frames put a fs1 (tmp_dir_of a (path info)) i 0 sampled (db w) = (None, d)"
    and d: "db w' = d"
    using assms process_writing [OF wi, of put i]
    by (auto split: prod.splits option.splits)
  from write_frames_puts [OF wf] obtain vals where
    "length vals = length sampled"
    "put_all put (zip (map (frame_key i) [0..<length sampled]) vals) (db w) = Inr (db w')"
    using d by auto
  moreover have "set (map (frame_key i) [0..<length sampled])
                   = {fmt08d i @ ''/'' @ fmt08d p | p. p < length sampled}"
    by (auto simp: frame_key_def)
  ultimately show ?thesis using wi ne frame_keys_distinct by blast
qed

theorem written_keys_witness:
  "process ex_env (ex_args\<lparr>sample_mode := 3, sample := Some ''3''\<rparr>) HDF5Storage_put 3
       (ex_video ''videos/a.mp4'') ex_world
     = (Inr ''OK'',
        \<lparr>fs = [], db = [(''00000003/00000000'', NpVoid ''jpeg1''),
                        (''00000003/00000001'', NpVoid ''jpeg4''),
                        (''00000003/00000002'', NpVoid ''jpeg7''),
                        (''00000003/00000003'', NpVoid ''jpeg10'')]\<rparr>)
   \<and> (\<exists>fs1 sampled vals.
         writing_input ex_env (ex_args\<lparr>sample_mode := 3, sample := Some ''3''\<rparr>)
             (ex_video ''videos/a.mp4'') (fs ex_world) = Some (fs1, sampled)
         \<and> length vals = length sampled
         \<and> put_all HDF5Storage_put (zip (map (frame_key 3) [0..<length sampled]) vals) (db ex_world)
             = Inr [(''00000003/00000000'', NpVoid ''jpeg1''),
                    (''00000003/00000001'', NpVoid ''jpeg4''),
                    (''00000003/00000002'', NpVoid ''jpeg7''),
                    (''00000003/00000003'', NpVoid ''jpeg10'')])"
proof -
  have run: "process ex_env (ex_args\<lparr>sample_mode := 3, sample := Some ''3''\<rparr>) HDF5Storage_put 3
       (ex_video ''videos/a.mp4'') ex_world
     = (Inr ''OK'',
        \<lparr>fs = [], db = [(''00000003/00000000'', NpVoid ''jpeg1''),
                        (''00000003/00000001'', NpVoid ''jpeg4''),
                        (''00000003/00000002'', NpVoid ''jpeg7''),
                        (''00000003/00000003'', NpVoid ''jpeg10'')]\<rparr>)"
    by code_simp
  show ?thesis using written_keys [OF run] run by auto
qed

lemma HDF5_put_ok:
  "HDF5Storage_put d k v = Inr d1 \<Longrightarrow> d1 = d @ [(k, v)] \<and> map_of d k = None"
  by (auto simp: HDF5Storage_put_def split: option.splits)

lemma put_all_HDF5:
  "put_all HDF5Storage_put kvs d = Inr d' \<Longrightarrow> d' = d @ kvs"
proof (induction kvs arbitrary: d)
  case Nil
  then show ?case by simp
next
  case (Cons kv kvs)
  obtain k v where kv: "kv = (k, v)" by (cases kv)
  from Cons.prems kv have "put_all HDF5Storage_put kvs (d @ [(k, v)]) = Inr d'"
    by (cases "HDF5Storage_put d k v") (auto dest: HDF5_put_ok)
  from Cons.IH [OF this] show ?case using kv by simp
qed









section \<open>The driver\<close>











section \<open>An invalid sampling parameter\<close>













end
